theory Spec2Isabelle
  imports Main
begin

section \<open>Errors, panics and step arguments\<close>

text \<open>
  Go's \<^verbatim>\<open>error\<close> values are compared by identity. The package-level sentinel
  \<^verbatim>\<open>var errPending = fmt.Errorf("pending step")\<close> is one value of its own; every other
  error value (whatever its text, also the text "pending step") is an \<open>ErrorValue\<close>.
  The runtime's own errors are error values too; \<open>TypeAssertionError\<close> is the one a failed
  unchecked type assertion panics with.
\<close>

datatype error = errPending | ErrorValue string | TypeAssertionError

text \<open>
  The value handed to \<^verbatim>\<open>panic\<close> is an \<^verbatim>\<open>interface{}\<close>. What \<^verbatim>\<open>runStep\<close> does with a
  recovered value depends only on whether its dynamic type implements \<^verbatim>\<open>error\<close>:
  \<open>PanicError\<close> is a value that does, \<open>PanicOther\<close> is any other non-nil value (a Go string
  for instance), kept as its text. \<^verbatim>\<open>panic(nil)\<close> is left out: what \<^verbatim>\<open>recover\<close> returns
  for it differs between Go releases.
\<close>

datatype panic_value = PanicError error | PanicOther string

text \<open>A call either returns a value or unwinds with a panic.\<close>

datatype 'a exit = Return 'a | Panic panic_value

type_synonym Arg = string

text \<open>
  \<^verbatim>\<open>Arg.Float\<close> and \<^verbatim>\<open>Arg.Int\<close> call \<^verbatim>\<open>strconv.ParseFloat(string(a), 64)\<close> and
  \<^verbatim>\<open>strconv.ParseInt(string(a), 10, 0)\<close>. The standard library's parser is a parameter:
  it yields \<open>Inr v\<close> when \<^verbatim>\<open>err == nil\<close> and \<open>Inl t\<close>, with \<open>t\<close> the text of the error,
  otherwise. Both accessors panic with the string built by \<^verbatim>\<open>fmt.Sprintf\<close>, which is
  not an \<^verbatim>\<open>error\<close>.
\<close>

definition Arg_Float :: "(string \<Rightarrow> string + 'f) \<Rightarrow> Arg \<Rightarrow> 'f exit" where
  \<open>Arg_Float ParseFloat a =
     (case ParseFloat a of
        Inr v \<Rightarrow> Return v
      | Inl err \<Rightarrow> Panic (PanicOther (''cannot convert "'' @ a @ ''" to float64: '' @ err)))\<close>

definition Arg_Int :: "(string \<Rightarrow> string + 'i) \<Rightarrow> Arg \<Rightarrow> 'i exit" where
  \<open>Arg_Int ParseInt a =
     (case ParseInt a of
        Inr v \<Rightarrow> Return v
      | Inl err \<Rightarrow> Panic (PanicOther (''cannot convert "'' @ a @ ''" to int64: '' @ err)))\<close>

definition Arg_String :: "Arg \<Rightarrow> string" where
  "Arg_String a = a"

section \<open>The suite\<close>

text \<open>
  Modelled from the spec: the types of the \<^verbatim>\<open>gherkin\<close> package are not among the sources.
  A Step is free text; a Scenario is a name and an ordered sequence of Steps; a Background
  is an ordered sequence of Steps; a Feature is a name, an optional Background and an
  ordered sequence of Scenarios. Only the fields the runner reads are kept beside the names.
\<close>

record gherkin_Step =
  Text :: string

record gherkin_Scenario =
  Scenario_Title :: string
  Scenario_Steps :: "gherkin_Step list"

record gherkin_Background =
  Background_Steps :: "gherkin_Step list"

record gherkin_Feature =
  Feature_Title :: string
  Background :: "gherkin_Background option"
  Scenarios :: "gherkin_Scenario list"

text \<open>
  A \<^verbatim>\<open>StepHandler\<close> is user code: it receives the arguments, may change the user's own
  state \<open>'w\<close>, and returns an error (\<open>None\<close> is \<^verbatim>\<open>nil\<close>) or panics. A compiled
  \<^verbatim>\<open>*regexp.Regexp\<close> is taken as its \<^verbatim>\<open>FindStringSubmatch\<close>: the empty list when the
  expression does not match, otherwise the matched text followed by the capture groups.
\<close>

record 'w stepMatchHandler =
  handler :: "Arg list \<Rightarrow> 'w \<Rightarrow> (error option) exit \<times> 'w"
  expr :: "string \<Rightarrow> string list"

text \<open>
  The calls the runner makes on its \<^verbatim>\<open>Formatter\<close>, in order. A matched definition is a
  pointer into \<^verbatim>\<open>s.steps\<close>; the event keeps its index there.
\<close>

datatype node =
    FeatureNode gherkin_Feature
  | BackgroundNode gherkin_Background
  | ScenarioNode gherkin_Scenario

datatype fmt_event =
    Node node
  | Pending gherkin_Step
  | Failed gherkin_Step nat error
  | Passed gherkin_Step nat
  | Skipped gherkin_Step

text \<open>
  The suite: the registered definitions, the loaded features, and the formatter, which is
  the list of calls it has received. Two more fields make the handlers' effects visible:
  \<open>calls\<close> logs every \<^verbatim>\<open>HandleStep\<close> invocation (index of the definition and arguments),
  \<open>world\<close> is the state the handlers share.
\<close>

record 'w suite =
  steps :: "'w stepMatchHandler list"
  features :: "gherkin_Feature list"
  fmt :: "fmt_event list"
  calls :: "(nat \<times> Arg list) list"
  world :: 'w

definition New :: "'w \<Rightarrow> 'w suite" where
  "New w = \<lparr>steps = [], features = [], fmt = [], calls = [], world = w\<rparr>"

definition Step :: "(string \<Rightarrow> string list) \<Rightarrow> (Arg list \<Rightarrow> 'w \<Rightarrow> (error option) exit \<times> 'w)
    \<Rightarrow> 'w suite \<Rightarrow> 'w suite" where
  "Step e h s = s\<lparr>steps := steps s @ [\<lparr>handler = h, expr = e\<rparr>]\<rparr>"

definition emit :: "fmt_event \<Rightarrow> 'w suite \<Rightarrow> 'w suite" where
  "emit ev s = s\<lparr>fmt := fmt s @ [ev]\<rparr>"

section \<open>Running one step\<close>

text \<open>
  The scan at the head of \<^verbatim>\<open>runStep\<close>: the definitions in order, from index \<open>i\<close>, leaving
  at the first whose \<^verbatim>\<open>FindStringSubmatch\<close> is not empty, with that definition as
  \<^verbatim>\<open>match\<close> and \<^verbatim>\<open>m[1:]\<close> as arguments.
\<close>

fun find_match :: "'w stepMatchHandler list \<Rightarrow> nat \<Rightarrow> string
    \<Rightarrow> (nat \<times> 'w stepMatchHandler \<times> Arg list) option" where
  "find_match [] i text = None"
| "find_match (h # hs) i text =
     (let m = expr h text
      in if length m > 0 then Some (i, h, tl m) else find_match hs (Suc i) text)"

text \<open>
  \<^verbatim>\<open>runStep\<close>. With no match the formatter's \<^verbatim>\<open>Pending\<close> is called and \<^verbatim>\<open>errPending\<close>
  returned. Otherwise the handler runs under the deferred \<^verbatim>\<open>recover\<close>: a recovered value
  goes through the unchecked assertion \<^verbatim>\<open>e.(error)\<close>, which for a value that is not an
  error panics again, inside the deferred function, with the runtime's type assertion
  error; nothing recovers that one.
\<close>

definition runStep :: "gherkin_Step \<Rightarrow> 'w suite \<Rightarrow> (error option) exit \<times> 'w suite" where
  "runStep step s =
     (case find_match (steps s) 0 (Text step) of
        None \<Rightarrow> (Return (Some errPending), emit (Pending step) s)
      | Some (i, match, args) \<Rightarrow>
          (case handler match args (world s) of
             (r, w) \<Rightarrow>
               (let s' = s\<lparr>calls := calls s @ [(i, args)], world := w\<rparr>
                in case r of
                     Return (Some err) \<Rightarrow> (Return (Some err), emit (Failed step i err) s')
                   | Return None \<Rightarrow> (Return None, emit (Passed step i) s')
                   | Panic (PanicError err) \<Rightarrow> (Return (Some err), emit (Failed step i err) s')
                   | Panic (PanicOther v) \<Rightarrow> (Panic (PanicError TypeAssertionError), s'))))"

section \<open>Running steps, scenarios and features\<close>

text \<open>
  The loop of \<^verbatim>\<open>runSteps\<close>, with its local \<^verbatim>\<open>failed\<close> as an argument. A panic that leaves
  \<^verbatim>\<open>runStep\<close> leaves the loop.
\<close>

fun runSteps_loop :: "bool \<Rightarrow> gherkin_Step list \<Rightarrow> 'w suite \<Rightarrow> bool exit \<times> 'w suite" where
  "runSteps_loop failed [] s = (Return failed, s)"
| "runSteps_loop failed (step # rest) s =
     (if failed then runSteps_loop failed rest (emit (Skipped step) s)
      else (case runStep step s of
              (Return err, s') \<Rightarrow> runSteps_loop (if err \<noteq> None then True else failed) rest s'
            | (Panic p, s') \<Rightarrow> (Panic p, s')))"

definition runSteps :: "gherkin_Step list \<Rightarrow> 'w suite \<Rightarrow> bool exit \<times> 'w suite" where
  "runSteps sts s = runSteps_loop False sts s"

fun skipSteps :: "gherkin_Step list \<Rightarrow> 'w suite \<Rightarrow> 'w suite" where
  "skipSteps [] s = s"
| "skipSteps (step # rest) s = skipSteps rest (emit (Skipped step) s)"

text \<open>
  The first block of the scenario loop of \<^verbatim>\<open>runFeature\<close>:
  \<^verbatim>\<open>if f.Background != nil && !failed { s.fmt.Node(f.Background); failed = s.runSteps(...) }\<close>.
  It returns the new value of \<^verbatim>\<open>failed\<close>.
\<close>

definition runBackground :: "gherkin_Feature \<Rightarrow> bool \<Rightarrow> 'w suite \<Rightarrow> bool exit \<times> 'w suite" where
  "runBackground f failed s =
     (case Background f of
        None \<Rightarrow> (Return failed, s)
      | Some bg \<Rightarrow>
          (if \<not> failed then runSteps (Background_Steps bg) (emit (Node (BackgroundNode bg)) s)
           else (Return failed, s)))"

text \<open>
  The scenario loop of \<^verbatim>\<open>runFeature\<close>, with its local \<^verbatim>\<open>failed\<close> as an argument. The
  result of \<^verbatim>\<open>s.runSteps(scenario.Steps)\<close> is dropped, as in the source.
\<close>

fun runFeature_loop :: "gherkin_Feature \<Rightarrow> bool \<Rightarrow> gherkin_Scenario list \<Rightarrow> 'w suite
    \<Rightarrow> bool exit \<times> 'w suite" where
  "runFeature_loop f failed [] s = (Return failed, s)"
| "runFeature_loop f failed (scenario # rest) s =
     (case runBackground f failed s of
        (Panic p, s1) \<Rightarrow> (Panic p, s1)
      | (Return failed1, s1) \<Rightarrow>
          (let s2 = emit (Node (ScenarioNode scenario)) s1
           in if failed1
              then runFeature_loop f failed1 rest (skipSteps (Scenario_Steps scenario) s2)
              else (case runSteps (Scenario_Steps scenario) s2 of
                      (Panic p, s3) \<Rightarrow> (Panic p, s3)
                    | (Return _, s3) \<Rightarrow> runFeature_loop f failed1 rest s3)))"

definition runFeature :: "gherkin_Feature \<Rightarrow> 'w suite \<Rightarrow> unit exit \<times> 'w suite" where
  "runFeature f s =
     (case runFeature_loop f False (Scenarios f) (emit (Node (FeatureNode f)) s) of
        (Panic p, s') \<Rightarrow> (Panic p, s')
      | (Return _, s') \<Rightarrow> (Return (), s'))"

text \<open>
  The feature loop of \<^verbatim>\<open>Run\<close>, over the features already loaded (flag parsing, the
  configuration and the two printed lines are outside the model). \<^verbatim>\<open>Run\<close> has no
  \<^verbatim>\<open>recover\<close>: a panic that reaches it ends the process.
\<close>

fun Run_loop :: "gherkin_Feature list \<Rightarrow> 'w suite \<Rightarrow> unit exit \<times> 'w suite" where
  "Run_loop [] s = (Return (), s)"
| "Run_loop (f # fs) s =
     (case runFeature f s of
        (Panic p, s') \<Rightarrow> (Panic p, s')
      | (Return _, s') \<Rightarrow> Run_loop fs s')"

definition Run :: "'w suite \<Rightarrow> unit exit \<times> 'w suite" where
  "Run s = Run_loop (features s) s"

text \<open>The formatter calls that report a step as not passed: \<^verbatim>\<open>Pending\<close> and \<^verbatim>\<open>Failed\<close>.\<close>

fun is_failure :: "fmt_event \<Rightarrow> bool" where
  "is_failure (Pending _) = True"
| "is_failure (Failed _ _ _) = True"
| "is_failure _ = False"

section \<open>Strict mode\<close>

text \<open>
  Modelled from the spec: the runner's \<^verbatim>\<open>run\<close> and its strict flag, which the tests
  \<^verbatim>\<open>TestFailsOrPassesBasedOnStrictModeWhenHasPendingSteps\<close> and
  \<^verbatim>\<open>TestFailsOrPassesBasedOnStrictModeWhenHasUndefinedSteps\<close> call, are not among the
  sources. Given the final aggregate counts, success is
  \<^verbatim>\<open>failed == 0 && (strict ? pending == 0 && undefined == 0 : true)\<close>.
\<close>

record Counts =
  passed_count :: nat
  failed_count :: nat
  pending_count :: nat
  undefined_count :: nat
  skipped_count :: nat

definition run_succeeded :: "Counts \<Rightarrow> bool \<Rightarrow> bool" where
  "run_succeeded c strict =
     (failed_count c = 0 \<and> (if strict then pending_count c = 0 \<and> undefined_count c = 0 else True))"

section \<open>Example suites\<close>

text \<open>
  \<^verbatim>\<open>FindStringSubmatch\<close> of two kinds of expression: \<open>lit t\<close> is the anchored literal
  \<^verbatim>\<open>^t$\<close>, without groups; \<open>lit_rest p\<close> is \<^verbatim>\<open>(?s)^p(.*)$\<close>, the literal prefix \<open>p\<close> with the
  rest of the text as its one group.
\<close>

definition lit :: "string \<Rightarrow> string \<Rightarrow> string list" where
  "lit t text = (if text = t then [text] else [])"

definition lit_rest :: "string \<Rightarrow> string \<Rightarrow> string list" where
  "lit_rest p text = (if take (length p) text = p then [text, drop (length p) text] else [])"

text \<open>A handler that ignores its arguments and returns \<open>r\<close>.\<close>

definition returning :: "error option \<Rightarrow> Arg list \<Rightarrow> unit \<Rightarrow> (error option) exit \<times> unit" where
  "returning r args w = (Return r, w)"

text \<open>
  \<^verbatim>\<open>strconv.ParseInt(s, 10, 0)\<close> where \<^verbatim>\<open>int\<close> has 64 bits: an optional sign, then one or
  more decimal digits, then the range check. The error text is that of
  \<^verbatim>\<open>*strconv.NumError\<close>; its quoting of \<open>s\<close> is exact for the printable ASCII texts without
  quote or backslash used here.
\<close>

definition is_digit :: "char \<Rightarrow> bool" where
  "is_digit c = (48 \<le> (of_char c :: nat) \<and> (of_char c :: nat) \<le> 57)"

fun digits_value :: "nat \<Rightarrow> string \<Rightarrow> nat" where
  "digits_value acc [] = acc"
| "digits_value acc (c # cs) = digits_value (acc * 10 + (of_char c - 48)) cs"

definition ParseInt :: "string \<Rightarrow> string + int" where
  \<open>ParseInt s0 =
     (let syntax = Inl (''strconv.ParseInt: parsing "'' @ s0 @ ''": invalid syntax'');
          range = Inl (''strconv.ParseInt: parsing "'' @ s0 @ ''": value out of range'')
      in case s0 of
           [] \<Rightarrow> syntax
         | c # cs \<Rightarrow>
             (let neg = (c = CHR ''-'');
                  s = (if c = CHR ''+'' \<or> c = CHR ''-'' then cs else s0)
              in if s = [] then syntax
                 else if list_all is_digit s
                 then (let un = digits_value 0 s
                       in if \<not> neg \<and> un \<ge> 2 ^ 63 then range
                          else if neg \<and> un > 2 ^ 63 then range
                          else Inr (if neg then - int un else int un))
                 else syntax))\<close>

text \<open>
  A handler in the way of the package's documentation: it reads its first argument as an
  integer and succeeds. Indexing an empty argument list is a runtime error.
\<close>

definition int_handler :: "Arg list \<Rightarrow> unit \<Rightarrow> (error option) exit \<times> unit" where
  "int_handler args w =
     (case args of
        [] \<Rightarrow> (Panic (PanicError (ErrorValue ''runtime error: index out of range'')), w)
      | a # _ \<Rightarrow>
          (case Arg_Int ParseInt a of
             Return v \<Rightarrow> (Return None, w)
           | Panic p \<Rightarrow> (Panic p, w)))"

definition step_of :: "string \<Rightarrow> gherkin_Step" where
  "step_of t = \<lparr>Text = t\<rparr>"

text \<open>
  The registrations \<^verbatim>\<open>s.Step(`^one$`, ...)\<close>, \<^verbatim>\<open>s.Step(`^two$`, ...)\<close> of the runner's
  tests, where "one" returns nil and "two" returns an error, followed by a definition with
  an integer argument.
\<close>

definition example_suite :: "unit suite" where
  "example_suite =
     Step (lit_rest ''eat '') int_handler
       (Step (lit ''two'') (returning (Some (ErrorValue ''error'')))
         (Step (lit ''one'') (returning None) (New ())))"

text \<open>
  Two definitions that both match the text "eat 5": the earlier one, with a capture group,
  and a later literal one.
\<close>

definition overlap_suite :: "unit suite" where
  "overlap_suite =
     Step (lit ''eat 5'') (returning (Some (ErrorValue ''later'')))
       (Step (lit_rest ''eat '') (returning None) (New ()))"

text \<open>
  The registrations of \<^verbatim>\<open>TestFailsOrPassesBasedOnStrictModeWhenHasPendingSteps\<close>: "one" returns
  nil and "two" returns the pending sentinel.
\<close>

definition pending_suite :: "unit suite" where
  "pending_suite =
     Step (lit ''two'') (returning (Some errPending))
       (Step (lit ''one'') (returning None) (New ()))"

text \<open>
  A feature with a background step "one" and two scenarios, whose steps are "two" and
  "three"; and a feature whose only scenario has the step "eat abc".
\<close>

definition example_background :: gherkin_Background where
  "example_background = \<lparr>Background_Steps = [step_of ''one'']\<rparr>"

definition scenario_a :: gherkin_Scenario where
  "scenario_a = \<lparr>Scenario_Title = ''a'', Scenario_Steps = [step_of ''two'']\<rparr>"

definition scenario_b :: gherkin_Scenario where
  "scenario_b = \<lparr>Scenario_Title = ''b'', Scenario_Steps = [step_of ''three'']\<rparr>"

definition example_feature :: gherkin_Feature where
  "example_feature =
     \<lparr>Feature_Title = ''example'', Background = Some example_background,
      Scenarios = [scenario_a, scenario_b]\<rparr>"

definition scenario_eat :: gherkin_Scenario where
  "scenario_eat = \<lparr>Scenario_Title = ''eat'', Scenario_Steps = [step_of ''eat abc'', step_of ''one'']\<rparr>"

definition eat_feature :: gherkin_Feature where
  "eat_feature = \<lparr>Feature_Title = ''eating'', Background = None, Scenarios = [scenario_eat]\<rparr>"

text \<open>
  A suite whose handlers share a counter: the handler of "flaky" returns nil on its first
  call and an error on every later one. In the feature, "flaky" is the background's step
  and the step of each of three scenarios.
\<close>

definition flaky_handler :: "Arg list \<Rightarrow> nat \<Rightarrow> (error option) exit \<times> nat" where
  "flaky_handler args n = (Return (if n = 0 then None else Some (ErrorValue ''again'')), n + 1)"

definition flaky_suite :: "nat suite" where
  "flaky_suite = Step (lit ''flaky'') flaky_handler (New 0)"

definition flaky_background :: gherkin_Background where
  "flaky_background = \<lparr>Background_Steps = [step_of ''flaky'']\<rparr>"

definition flaky_scenario :: "string \<Rightarrow> gherkin_Scenario" where
  "flaky_scenario t = \<lparr>Scenario_Title = t, Scenario_Steps = [step_of ''flaky'']\<rparr>"

definition flaky_feature :: gherkin_Feature where
  "flaky_feature =
     \<lparr>Feature_Title = ''flaky'', Background = Some flaky_background,
      Scenarios = [flaky_scenario ''first'', flaky_scenario ''second'', flaky_scenario ''third'']\<rparr>"

text \<open>
  The example background before three scenarios, and two scenarios without a background.
\<close>

definition repeat_feature :: gherkin_Feature where
  "repeat_feature =
     \<lparr>Feature_Title = ''repeat'', Background = Some example_background,
      Scenarios = [scenario_a, scenario_b, scenario_a]\<rparr>"

definition plain_feature :: gherkin_Feature where
  "plain_feature =
     \<lparr>Feature_Title = ''plain'', Background = None, Scenarios = [scenario_a, scenario_b]\<rparr>"

text \<open>The events of a scenario that is skipped: its node, then one \<^verbatim>\<open>Skipped\<close> per step.\<close>

definition skipped_events :: "gherkin_Scenario \<Rightarrow> fmt_event list" where
  "skipped_events sc = Node (ScenarioNode sc) # map Skipped (Scenario_Steps sc)"

section \<open>Evaluating the examples\<close>

lemmas example_defs = example_suite_def Step_def New_def lit_def lit_rest_def returning_def
  runSteps_def runStep_def emit_def step_of_def Let_def

lemmas feature_defs = example_background_def scenario_a_def scenario_b_def example_feature_def
  scenario_eat_def eat_feature_def runFeature_def runBackground_def

lemmas flaky_defs = flaky_handler_def flaky_suite_def flaky_background_def flaky_scenario_def
  flaky_feature_def Step_def New_def lit_def runSteps_def runStep_def emit_def step_of_def Let_def

lemma ParseInt_abc:
  \<open>ParseInt ''abc'' = Inl (''strconv.ParseInt: parsing "abc": invalid syntax'')\<close>
  by (simp add: ParseInt_def is_digit_def)

lemma ParseInt_12: "ParseInt ''12'' = Inr 12"
  by (simp add: ParseInt_def is_digit_def)

section \<open>Properties of the step runner\<close>

lemma runStep_unmatched:
  "find_match (steps s) 0 (Text step) = None \<Longrightarrow>
     runStep step s = (Return (Some errPending), emit (Pending step) s)"
  by (simp add: runStep_def)

lemma runStep_matched:
  "find_match (steps s) 0 (Text step) = Some (i, m, args) \<Longrightarrow> handler m args (world s) = (r, w) \<Longrightarrow>
     runStep step s =
       (case r of
          Return (Some err) \<Rightarrow>
            (Return (Some err), emit (Failed step i err) (s\<lparr>calls := calls s @ [(i, args)], world := w\<rparr>))
        | Return None \<Rightarrow>
            (Return None, emit (Passed step i) (s\<lparr>calls := calls s @ [(i, args)], world := w\<rparr>))
        | Panic (PanicError err) \<Rightarrow>
            (Return (Some err), emit (Failed step i err) (s\<lparr>calls := calls s @ [(i, args)], world := w\<rparr>))
        | Panic (PanicOther v) \<Rightarrow>
            (Panic (PanicError TypeAssertionError), s\<lparr>calls := calls s @ [(i, args)], world := w\<rparr>))"
  by (simp add: runStep_def Let_def)

lemma runStep_event:
  assumes "runStep step s = (Return r, s')"
  shows "\<exists>ev. fmt s' = fmt s @ [ev] \<and> (is_failure ev \<longleftrightarrow> r \<noteq> None)"
proof (cases "find_match (steps s) 0 (Text step)")
  case None
  from assms runStep_unmatched [OF None] show ?thesis
    by (auto simp: emit_def)
next
  case (Some t)
  obtain i m args where t: "t = (i, m, args)" by (cases t)
  obtain hr w where h: "handler m args (world s) = (hr, w)" by (cases "handler m args (world s)")
  from assms runStep_matched [OF Some [unfolded t] h] show ?thesis
    by (auto simp: emit_def split: exit.splits option.splits panic_value.splits)
qed

lemma runStep_calls:
  "find_match (steps s) 0 (Text step) = Some (i, m, args) \<Longrightarrow>
     calls (snd (runStep step s)) = calls s @ [(i, args)]"
  by (cases "handler m args (world s)")
    (simp add: runStep_def Let_def emit_def split: exit.splits option.splits panic_value.splits)

lemma runStep_panic_error:
  assumes "find_match (steps s) 0 (Text step) = Some (i, m, args)"
    and "handler m args (world s) = (Panic (PanicError err), w)"
  shows "runStep step s
    = (Return (Some err), emit (Failed step i err) (s\<lparr>calls := calls s @ [(i, args)], world := w\<rparr>))"
  using runStep_matched [OF assms] by simp

lemma runStep_panic_other:
  assumes "find_match (steps s) 0 (Text step) = Some (i, m, args)"
    and "handler m args (world s) = (Panic (PanicOther v), w)"
  shows "runStep step s
    = (Panic (PanicError TypeAssertionError), s\<lparr>calls := calls s @ [(i, args)], world := w\<rparr>)"
  using runStep_matched [OF assms] by simp

lemma skipSteps_eq: "skipSteps sts s = s\<lparr>fmt := fmt s @ map Skipped sts\<rparr>"
  by (induction sts arbitrary: s) (simp_all add: emit_def)

lemma runSteps_loop_True:
  "runSteps_loop True sts s = (Return True, s\<lparr>fmt := fmt s @ map Skipped sts\<rparr>)"
  by (induction sts arbitrary: s) (simp_all add: emit_def)

lemma runSteps_loop_append:
  "runSteps_loop fl (pre @ post) s =
     (case runSteps_loop fl pre s of
        (Return b, s1) \<Rightarrow> runSteps_loop b post s1
      | (Panic p, s1) \<Rightarrow> (Panic p, s1))"
proof (induction pre arbitrary: fl s)
  case Nil
  show ?case by simp
next
  case (Cons st pre)
  show ?case
  proof (cases fl)
    case True
    then show ?thesis by (simp add: Cons.IH)
  next
    case False
    obtain r s1 where rs: "runStep st s = (r, s1)" by (cases "runStep st s")
    show ?thesis
    proof (cases r)
      case (Return err)
      with False rs show ?thesis by (simp add: Cons.IH)
    next
      case (Panic p)
      with False rs show ?thesis by simp
    qed
  qed
qed

lemma runSteps_loop_step:
  "runStep st s = (Return err, s1) \<Longrightarrow>
     runSteps_loop False (st # sts) s = runSteps_loop (err \<noteq> None) sts s1"
  by (cases err) simp_all

lemma runSteps_loop_panic:
  "runStep st s = (Panic p, s1) \<Longrightarrow> runSteps_loop False (st # sts) s = (Panic p, s1)"
  by simp

lemma runSteps_loop_Cons_Return:
  assumes "runSteps_loop False (st # sts) s = (Return b, s')"
  obtains err s1 where "runStep st s = (Return err, s1)"
    and "runSteps_loop (err \<noteq> None) sts s1 = (Return b, s')"
proof -
  obtain r s1 where rs: "runStep st s = (r, s1)" by (cases "runStep st s")
  show thesis
  proof (cases r)
    case (Return err)
    from runSteps_loop_step [OF rs [unfolded Return]] assms
    have "runSteps_loop (err \<noteq> None) sts s1 = (Return b, s')" by (simp only:)
    with rs Return that show thesis by blast
  next
    case (Panic p)
    from runSteps_loop_panic [OF rs [unfolded Panic]] assms
    have "(Panic p, s1) = (Return b, s')" by (simp only:)
    then show thesis by simp
  qed
qed

lemma runSteps_loop_length:
  "runSteps_loop fl sts s = (Return b, s') \<Longrightarrow> length (fmt s') = length (fmt s) + length sts"
proof (induction sts arbitrary: fl s)
  case Nil
  then show ?case by simp
next
  case (Cons st sts)
  show ?case
  proof (cases fl)
    case True
    with Cons.prems have "s' = s\<lparr>fmt := fmt s @ map Skipped (st # sts)\<rparr>"
      by (simp only: runSteps_loop_True prod.inject)
    then show ?thesis by simp
  next
    case False
    then have fl: "fl = False" by simp
    from Cons.prems [unfolded fl] obtain err s1 where rs: "runStep st s = (Return err, s1)"
      and loop: "runSteps_loop (err \<noteq> None) sts s1 = (Return b, s')"
      by (rule runSteps_loop_Cons_Return)
    from rs obtain ev where "fmt s1 = fmt s @ [ev]"
      using runStep_event by blast
    with Cons.IH [OF loop] show ?thesis by simp
  qed
qed

lemma runSteps_loop_last:
  "runSteps_loop fl sts s = (Return b, s') \<Longrightarrow> sts \<noteq> [] \<Longrightarrow> is_failure (last (fmt s')) \<Longrightarrow> b"
proof (induction sts arbitrary: fl s)
  case Nil
  then show ?case by simp
next
  case (Cons st sts)
  show ?case
  proof (cases fl)
    case True
    with Cons.prems(1) show ?thesis by (simp only: runSteps_loop_True prod.inject exit.inject)
  next
    case False
    then have fl: "fl = False" by simp
    from Cons.prems(1) [unfolded fl] obtain err s1 where rs: "runStep st s = (Return err, s1)"
      and loop: "runSteps_loop (err \<noteq> None) sts s1 = (Return b, s')"
      by (rule runSteps_loop_Cons_Return)
    from runStep_event [OF rs]
    obtain ev where ev: "fmt s1 = fmt s @ [ev]" "is_failure ev \<longleftrightarrow> err \<noteq> None"
      by (elim exE conjE) (rule that)
    show ?thesis
    proof (cases err)
      case (Some e)
      with loop have "runSteps_loop True sts s1 = (Return b, s')" by simp
      then show ?thesis by (simp only: runSteps_loop_True prod.inject exit.inject)
    next
      case None
      with loop have loop': "runSteps_loop False sts s1 = (Return b, s')" by simp
      show ?thesis
      proof (cases sts)
        case Nil
        with loop' have "s' = s1" by simp
        with ev None Cons.prems(3) show ?thesis by simp
      next
        case tail: (Cons a list)
        then have "sts \<noteq> []" by simp
        from Cons.IH [OF loop' this Cons.prems(3)] show ?thesis .
      qed
    qed
  qed
qed

lemma runSteps_append:
  "runSteps pre s = (Return b, s1) \<Longrightarrow> runSteps (pre @ post) s = runSteps_loop b post s1"
  by (simp add: runSteps_def runSteps_loop_append)

section \<open>Step resolution\<close>

lemma find_match_None:
  "find_match hs i text = None \<longleftrightarrow> (\<forall>h \<in> set hs. expr h text = [])"
  by (induction hs arbitrary: i) (simp_all add: Let_def)

lemma find_match_None_nth:
  "find_match hs i text = None \<longleftrightarrow> (\<forall>j < length hs. expr (hs ! j) text = [])"
  by (simp add: find_match_None all_set_conv_all_nth)

lemma find_match_Some:
  "find_match hs i text = Some (k, h, args) \<Longrightarrow>
     \<exists>j. k = i + j \<and> j < length hs \<and> h = hs ! j \<and> expr h text \<noteq> []
       \<and> args = tl (expr h text) \<and> (\<forall>j' < j. expr (hs ! j') text = [])"
proof (induction hs arbitrary: i)
  case Nil
  then show ?case by simp
next
  case (Cons g hs)
  show ?case
  proof (cases "expr g text = []")
    case True
    with Cons.prems have "find_match hs (Suc i) text = Some (k, h, args)" by simp
    from Cons.IH [OF this] obtain j where j: "k = Suc i + j" "j < length hs" "h = hs ! j"
      "expr h text \<noteq> []" "args = tl (expr h text)" "\<forall>j' < j. expr (hs ! j') text = []"
      by blast
    have "\<forall>j' < Suc j. expr ((g # hs) ! j') text = []"
      using True j(6) by (simp add: nth_Cons split: nat.splits)
    with j show ?thesis
      by (intro exI [of _ "Suc j"]) simp
  next
    case False
    with Cons.prems have "k = i" "h = g" "args = tl (expr g text)" by (auto simp: Let_def)
    with False show ?thesis by (intro exI [of _ 0]) simp
  qed
qed

lemma find_match_iff:
  "find_match hs 0 text = Some (i, m, args) \<longleftrightarrow>
     i < length hs \<and> m = hs ! i \<and> expr m text \<noteq> [] \<and> args = tl (expr m text)
     \<and> (\<forall>j < i. expr (hs ! j) text = [])"
  (is "?L \<longleftrightarrow> ?R")
proof
  assume ?L
  from find_match_Some [OF this] show ?R by auto
next
  assume R: ?R
  then have R1: "i < length hs" and R2: "m = hs ! i" and R3: "expr (hs ! i) text \<noteq> []"
    and R4: "args = tl (expr (hs ! i) text)" and R5: "\<forall>j < i. expr (hs ! j) text = []"
    by auto
  show ?L
  proof (cases "find_match hs 0 text")
    case None
    then have "\<forall>j < length hs. expr (hs ! j) text = []" by (simp add: find_match_None_nth)
    with R1 R3 have False by blast
    then show ?thesis ..
  next
    case (Some t)
    obtain k h a where t: "t = (k, h, a)" by (cases t)
    from find_match_Some [OF Some [unfolded t]]
    have k1: "k < length hs" and k2: "h = hs ! k" and k3: "expr (hs ! k) text \<noteq> []"
      and k4: "a = tl (expr (hs ! k) text)" and k5: "\<forall>j < k. expr (hs ! j) text = []"
      by auto
    have "\<not> k < i" using R5 k3 by blast
    moreover have "\<not> i < k" using k5 R3 by blast
    ultimately have "k = i" by linarith
    with Some t k2 k4 R2 R4 show ?thesis by simp
  qed
qed

lemma find_match_append:
  "find_match (hs @ gs) i text =
     (case find_match hs i text of
        Some r \<Rightarrow> Some r
      | None \<Rightarrow> find_match gs (i + length hs) text)"
  by (induction hs arbitrary: i) (simp_all add: Let_def split: option.splits)

text \<open>
  C2. Step resolution scans the definitions in registration order. It returns definition
  \<open>i\<close> with arguments \<open>args\<close> exactly when \<open>i\<close> is a registered index, the expression of
  definition \<open>i\<close> matches the text, no definition registered before \<open>i\<close> matches it, and
  \<open>args\<close> are the capture groups of that match in order; the handler is then called with
  these arguments. Registering a further definition never changes the definition found.
\<close>

theorem find_match_lowest_index:
  "(find_match (steps s) 0 (Text step) = Some (i, m, args) \<longleftrightarrow>
      i < length (steps s) \<and> m = steps s ! i \<and> expr m (Text step) \<noteq> []
      \<and> args = tl (expr m (Text step))
      \<and> (\<forall>j < i. expr (steps s ! j) (Text step) = []))
   \<and> (find_match (steps s) 0 (Text step) = Some (i, m, args) \<longrightarrow>
        calls (snd (runStep step s)) = calls s @ [(i, args)]
        \<and> find_match (steps (Step e h s)) 0 (Text step) = Some (i, m, args))"
proof (intro conjI impI)
  show "find_match (steps s) 0 (Text step) = Some (i, m, args) \<longleftrightarrow>
      i < length (steps s) \<and> m = steps s ! i \<and> expr m (Text step) \<noteq> []
      \<and> args = tl (expr m (Text step))
      \<and> (\<forall>j < i. expr (steps s ! j) (Text step) = [])"
    by (rule find_match_iff)
next
  assume "find_match (steps s) 0 (Text step) = Some (i, m, args)"
  then show "calls (snd (runStep step s)) = calls s @ [(i, args)]"
    by (rule runStep_calls)
next
  assume "find_match (steps s) 0 (Text step) = Some (i, m, args)"
  then show "find_match (steps (Step e h s)) 0 (Text step) = Some (i, m, args)"
    by (simp add: Step_def find_match_append)
qed

theorem find_match_lowest_index_witness:
  "find_match (steps overlap_suite) 0 (Text (step_of ''eat 5'')) =
     Some (0, steps overlap_suite ! 0, [''5''])
   \<and> expr (steps overlap_suite ! 1) (Text (step_of ''eat 5'')) \<noteq> []
   \<and> calls (snd (runStep (step_of ''eat 5'') overlap_suite)) = [(0, [''5''])]"
proof -
  have m: "0 < length (steps overlap_suite) \<and> steps overlap_suite ! 0 = steps overlap_suite ! 0
      \<and> expr (steps overlap_suite ! 0) (Text (step_of ''eat 5'')) \<noteq> []
      \<and> [''5''] = tl (expr (steps overlap_suite ! 0) (Text (step_of ''eat 5'')))
      \<and> (\<forall>j < 0. expr (steps overlap_suite ! j) (Text (step_of ''eat 5'')) = [])"
    by (simp add: overlap_suite_def example_defs)
  have c: "calls overlap_suite = []"
    by (simp add: overlap_suite_def example_defs)
  have l: "expr (steps overlap_suite ! 1) (Text (step_of ''eat 5'')) \<noteq> []"
    by (simp add: overlap_suite_def example_defs)
  from find_match_lowest_index [of overlap_suite "step_of ''eat 5''" 0 "steps overlap_suite ! 0" "[''5'']"]
    m c l show ?thesis by simp
qed

section \<open>Skipping after a failure\<close>

text \<open>
  C1. Once a step of a scenario has been reported with \<^verbatim>\<open>Failed\<close> or \<^verbatim>\<open>Pending\<close> (the
  formatter has no separate call for an undefined step), every later step of that
  scenario is reported with \<^verbatim>\<open>Skipped\<close> and no handler runs: when the steps up to and
  including step \<open>k\<close> have been run and the event of step \<open>k\<close>, the last one, is a failure,
  the run of all the steps returns \<^verbatim>\<open>true\<close> in the state reached after step \<open>k\<close>, but for
  one \<^verbatim>\<open>Skipped\<close> event for each later step; the log of handler calls and the handlers'
  state are those reached after step \<open>k\<close>.
\<close>

theorem runSteps_skips_after_failure:
  assumes "k < length sts"
    and "runSteps (take (Suc k) sts) s = (Return b, s2)"
    and "is_failure (last (fmt s2))"
  shows "runSteps sts s = (Return True, s2\<lparr>fmt := fmt s2 @ map Skipped (drop (Suc k) sts)\<rparr>)"
proof -
  from assms(1) have ne: "take (Suc k) sts \<noteq> []" by auto
  from assms(2) have "runSteps_loop False (take (Suc k) sts) s = (Return b, s2)"
    by (simp add: runSteps_def)
  from runSteps_loop_last [OF this ne assms(3)] have b by simp
  have "runSteps sts s = runSteps (take (Suc k) sts @ drop (Suc k) sts) s" by simp
  also have "\<dots> = runSteps_loop b (drop (Suc k) sts) s2"
    using assms(2) by (rule runSteps_append)
  also have "\<dots> = (Return True, s2\<lparr>fmt := fmt s2 @ map Skipped (drop (Suc k) sts)\<rparr>)"
    using \<open>b\<close> by (simp add: runSteps_loop_True)
  finally show ?thesis .
qed

theorem runSteps_skips_after_failure_witness:
  "runSteps (map step_of [''one'', ''two'', ''one'', ''three'']) example_suite =
     (Return True, example_suite\<lparr>
        fmt := [Passed (step_of ''one'') 0, Failed (step_of ''two'') 1 (ErrorValue ''error''),
                Skipped (step_of ''one''), Skipped (step_of ''three'')],
        calls := [(0, []), (1, [])]\<rparr>)"
proof -
  let ?sts = "map step_of [''one'', ''two'', ''one'', ''three'']"
  let ?s2 = "example_suite\<lparr>
        fmt := [Passed (step_of ''one'') 0, Failed (step_of ''two'') 1 (ErrorValue ''error'')],
        calls := [(0, []), (1, [])]\<rparr>"
  have h1: "1 < length ?sts" by simp
  have h2: "runSteps (take (Suc 1) ?sts) example_suite = (Return True, ?s2)"
    by (simp add: example_defs)
  have h3: "is_failure (last (fmt ?s2))" by simp
  from runSteps_skips_after_failure [OF h1 h2 h3] show ?thesis by simp
qed

section \<open>Steps without a definition\<close>

text \<open>
  C3, as the code has it. A step whose text no registered expression matches is reported
  with the formatter's \<^verbatim>\<open>Pending\<close> call, \<^verbatim>\<open>runStep\<close> returns the \<^verbatim>\<open>errPending\<close> sentinel,
  no handler is called, and the run of the steps it belongs to returns \<^verbatim>\<open>true\<close> (failed)
  with every later step skipped.
\<close>

theorem runStep_unmatched_is_pending:
  assumes "\<forall>h \<in> set (steps s). expr h (Text step) = []"
  shows "runStep step s = (Return (Some errPending), emit (Pending step) s)
    \<and> calls (snd (runStep step s)) = calls s
    \<and> runSteps (step # rest) s
      = (Return True, s\<lparr>fmt := fmt s @ Pending step # map Skipped rest\<rparr>)"
proof -
  from assms have none: "find_match (steps s) 0 (Text step) = None"
    by (simp add: find_match_None)
  then have r: "runStep step s = (Return (Some errPending), emit (Pending step) s)"
    by (rule runStep_unmatched)
  have "runSteps (step # rest) s = runSteps_loop True rest (emit (Pending step) s)"
    unfolding runSteps_def using runSteps_loop_step [OF r] by simp
  then have "runSteps (step # rest) s
      = (Return True, s\<lparr>fmt := fmt s @ Pending step # map Skipped rest\<rparr>)"
    by (simp add: runSteps_loop_True emit_def)
  with r show ?thesis by (simp add: emit_def)
qed

theorem runStep_unmatched_is_pending_witness:
  "runStep (step_of ''three'') example_suite
     = (Return (Some errPending), emit (Pending (step_of ''three'')) example_suite)
   \<and> runSteps [step_of ''three'', step_of ''one''] example_suite
     = (Return True, example_suite\<lparr>fmt := [Pending (step_of ''three''), Skipped (step_of ''one'')]\<rparr>)"
proof -
  have h: "\<forall>h \<in> set (steps example_suite). expr h (Text (step_of ''three'')) = []"
    by (simp add: example_defs)
  have f: "fmt example_suite = []" by (simp add: example_defs)
  from runStep_unmatched_is_pending [OF h, where rest = "[step_of ''one'']"] f
  show ?thesis by simp
qed

text \<open>
  The step "three", which no definition of the example suite matches, is reported through
  \<^verbatim>\<open>Pending\<close>: that is the only call the formatter receives for it.
\<close>

theorem unmatched_step_reported_pending:
  "fmt (snd (runStep (step_of ''three'') example_suite)) = [Pending (step_of ''three'')]"
  by (simp add: example_defs)

section \<open>What a handler's result is reported as\<close>

text \<open>
  C4, as the code has it. For a step matched to a handler that returns, the formatter
  receives \<^verbatim>\<open>Passed\<close> when the handler returns nil and \<^verbatim>\<open>Failed\<close>, with the error, when
  it returns any non-nil error, the pending sentinel included; \<^verbatim>\<open>runStep\<close> returns what
  the handler returned.
\<close>

theorem runStep_reports_handler_result:
  assumes "find_match (steps s) 0 (Text step) = Some (i, m, args)"
    and "handler m args (world s) = (Return r, w)"
  shows "fst (runStep step s) = Return r
    \<and> fmt (snd (runStep step s))
      = fmt s @ [case r of None \<Rightarrow> Passed step i | Some err \<Rightarrow> Failed step i err]"
  using runStep_matched [OF assms]
  by (simp add: emit_def split: option.splits)

theorem runStep_reports_handler_result_witness:
  "fst (runStep (step_of ''two'') pending_suite) = Return (Some errPending)
   \<and> fmt (snd (runStep (step_of ''two'') pending_suite)) = [Failed (step_of ''two'') 1 errPending]
   \<and> fmt (snd (runStep (step_of ''one'') pending_suite)) = [Passed (step_of ''one'') 0]"
proof -
  have m2: "find_match (steps pending_suite) 0 (Text (step_of ''two''))
      = Some (1, \<lparr>handler = returning (Some errPending), expr = lit ''two''\<rparr>, [])"
    by (simp add: pending_suite_def example_defs)
  have h2: "handler \<lparr>handler = returning (Some errPending), expr = lit ''two''\<rparr> []
      (world pending_suite) = (Return (Some errPending), ())"
    by (simp add: returning_def)
  have m1: "find_match (steps pending_suite) 0 (Text (step_of ''one''))
      = Some (0, \<lparr>handler = returning None, expr = lit ''one''\<rparr>, [])"
    by (simp add: pending_suite_def example_defs)
  have h1: "handler \<lparr>handler = returning None, expr = lit ''one''\<rparr> []
      (world pending_suite) = (Return None, ())"
    by (simp add: returning_def)
  have f: "fmt pending_suite = []" by (simp add: pending_suite_def example_defs)
  from runStep_reports_handler_result [OF m2 h2] runStep_reports_handler_result [OF m1 h1] f
  show ?thesis by simp
qed

text \<open>
  With the registrations of the runner's own test, the step "two", whose handler returns
  the pending sentinel, is reported through \<^verbatim>\<open>Failed\<close>.
\<close>

theorem pending_sentinel_reported_failed:
  "fmt (snd (runStep (step_of ''two'') pending_suite)) = [Failed (step_of ''two'') 1 errPending]"
  by (simp add: pending_suite_def example_defs)

section \<open>Panics in handlers\<close>

lemma Arg_Int_panics:
  "ParseInt a = Inl t \<Longrightarrow> \<exists>v. Arg_Int ParseInt a = Panic (PanicOther v)"
  by (simp add: Arg_Int_def)

lemma Arg_Float_panics:
  "parseFloat a = Inl t \<Longrightarrow> \<exists>v. Arg_Float parseFloat a = Panic (PanicOther v)"
  by (simp add: Arg_Float_def)

text \<open>
  C5 at a failing input. The step "eat abc" is matched by the definition whose handler
  reads its argument with \<^verbatim>\<open>Arg.Int\<close>. The accessor panics with a string; the deferred
  function of \<^verbatim>\<open>runStep\<close> recovers it and panics again in \<^verbatim>\<open>e.(error)\<close>. No \<^verbatim>\<open>Failed\<close>
  call reaches the formatter, the step "one" that follows is neither run nor skipped, and
  the panic leaves \<^verbatim>\<open>Run\<close>.
\<close>

theorem conversion_fault_ends_run:
  "runStep (step_of ''eat abc'') example_suite
     = (Panic (PanicError TypeAssertionError), example_suite\<lparr>calls := [(2, [''abc''])]\<rparr>)
   \<and> Run (example_suite\<lparr>features := [eat_feature]\<rparr>)
     = (Panic (PanicError TypeAssertionError),
        example_suite\<lparr>features := [eat_feature],
          fmt := [Node (FeatureNode eat_feature), Node (ScenarioNode scenario_eat)],
          calls := [(2, [''abc''])]\<rparr>)"
  by (simp add: Run_def feature_defs example_defs int_handler_def Arg_Int_def ParseInt_abc)

section \<open>The failure flag of a feature\<close>

lemma runBackground_True: "runBackground f True s = (Return True, s)"
  by (simp add: runBackground_def split: option.splits)

lemma runFeature_loop_True:
  "runFeature_loop f True scs s
     = (Return True, s\<lparr>fmt := fmt s @ concat (map skipped_events scs)\<rparr>)"
  by (induction scs arbitrary: s)
    (simp_all add: runBackground_True skipSteps_eq emit_def skipped_events_def)

lemma runFeature_loop_append:
  "runFeature_loop f fl (pre @ post) s =
     (case runFeature_loop f fl pre s of
        (Return b, s1) \<Rightarrow> runFeature_loop f b post s1
      | (Panic p, s1) \<Rightarrow> (Panic p, s1))"
proof (induction pre arbitrary: fl s)
  case Nil
  show ?case by simp
next
  case (Cons sc pre)
  obtain r s1 where bg: "runBackground f fl s = (r, s1)" by (cases "runBackground f fl s")
  show ?case
  proof (cases r)
    case (Panic p)
    with bg show ?thesis by simp
  next
    case (Return fl1)
    show ?thesis
    proof (cases fl1)
      case True
      with bg Return show ?thesis by (simp add: Cons.IH)
    next
      case False
      obtain r2 s3 where sc: "runSteps (Scenario_Steps sc) (emit (Node (ScenarioNode sc)) s1) = (r2, s3)"
        by (cases "runSteps (Scenario_Steps sc) (emit (Node (ScenarioNode sc)) s1)")
      with bg Return False show ?thesis
        by (cases r2) (simp_all add: Cons.IH)
    qed
  qed
qed

lemma runFeature_loop_background_failed:
  assumes "runBackground f False s = (Return True, s1)"
  shows "runFeature_loop f False (scenario # rest) s = runFeature_loop f True (scenario # rest) s1"
  using assms by (simp add: runBackground_True)

text \<open>
  C6. When the background's steps, run before some scenario of a feature, return
  \<^verbatim>\<open>true\<close> (a step of the background was reported \<^verbatim>\<open>Failed\<close> or \<^verbatim>\<open>Pending\<close>), the
  flag stays set to the end of the feature: for that scenario and every later one the
  formatter receives the scenario's node and one \<^verbatim>\<open>Skipped\<close> per step and nothing else,
  so the background is not run again, and the log of handler calls and the handlers'
  state stay as the background's run left them.
\<close>

theorem background_failure_persists:
  assumes "Background f = Some bg"
    and "runFeature_loop f False pre s0 = (Return False, s)"
    and "runSteps (Background_Steps bg) (emit (Node (BackgroundNode bg)) s) = (Return True, s1)"
  shows "runFeature_loop f False (pre @ scenario # rest) s0
    = (Return True, s1\<lparr>fmt := fmt s1 @ concat (map skipped_events (scenario # rest))\<rparr>)"
proof -
  from assms(1,3) have bg: "runBackground f False s = (Return True, s1)"
    by (simp add: runBackground_def)
  have "runFeature_loop f False (pre @ scenario # rest) s0
      = runFeature_loop f False (scenario # rest) s"
    using assms(2) by (simp add: runFeature_loop_append)
  also have "\<dots> = runFeature_loop f True (scenario # rest) s1"
    using bg by (rule runFeature_loop_background_failed)
  finally show ?thesis by (simp only: runFeature_loop_True)
qed

theorem background_failure_persists_witness:
  "runFeature_loop flaky_feature False
     [flaky_scenario ''first'', flaky_scenario ''second'', flaky_scenario ''third''] flaky_suite
   = (Return True, flaky_suite\<lparr>
        fmt := [Node (BackgroundNode flaky_background), Passed (step_of ''flaky'') 0,
                Node (ScenarioNode (flaky_scenario ''first'')),
                Failed (step_of ''flaky'') 0 (ErrorValue ''again''),
                Node (BackgroundNode flaky_background),
                Failed (step_of ''flaky'') 0 (ErrorValue ''again''),
                Node (ScenarioNode (flaky_scenario ''second'')), Skipped (step_of ''flaky''),
                Node (ScenarioNode (flaky_scenario ''third'')), Skipped (step_of ''flaky'')],
        calls := [(0, []), (0, []), (0, [])],
        world := 3\<rparr>)"
proof -
  let ?s = "flaky_suite\<lparr>
        fmt := [Node (BackgroundNode flaky_background), Passed (step_of ''flaky'') 0,
                Node (ScenarioNode (flaky_scenario ''first'')),
                Failed (step_of ''flaky'') 0 (ErrorValue ''again'')],
        calls := [(0, []), (0, [])],
        world := 2\<rparr>"
  let ?s1 = "flaky_suite\<lparr>
        fmt := [Node (BackgroundNode flaky_background), Passed (step_of ''flaky'') 0,
                Node (ScenarioNode (flaky_scenario ''first'')),
                Failed (step_of ''flaky'') 0 (ErrorValue ''again''),
                Node (BackgroundNode flaky_background),
                Failed (step_of ''flaky'') 0 (ErrorValue ''again'')],
        calls := [(0, []), (0, []), (0, [])],
        world := 3\<rparr>"
  have h1: "Background flaky_feature = Some flaky_background"
    by (simp add: flaky_feature_def)
  have h2: "runFeature_loop flaky_feature False [flaky_scenario ''first''] flaky_suite
      = (Return False, ?s)"
    by (simp add: runBackground_def flaky_defs)
  have h3: "runSteps (Background_Steps flaky_background)
      (emit (Node (BackgroundNode flaky_background)) ?s) = (Return True, ?s1)"
    by (simp add: flaky_defs)
  from background_failure_persists [OF h1 h2 h3, of "flaky_scenario ''second''"
      "[flaky_scenario ''third'']"]
  show ?thesis by (simp add: skipped_events_def flaky_defs)
qed

lemma runBackground_unset:
  assumes "case Background f of
             None \<Rightarrow> s1 = s
           | Some bg \<Rightarrow>
               runSteps (Background_Steps bg) (emit (Node (BackgroundNode bg)) s) = (Return False, s1)"
  shows "runBackground f False s = (Return False, s1)"
  using assms by (simp add: runBackground_def split: option.splits)

lemma runFeature_loop_scenario_unset:
  assumes "runBackground f False s = (Return False, s1)"
    and "runSteps (Scenario_Steps scenario) (emit (Node (ScenarioNode scenario)) s1) = (Return b, s2)"
  shows "runFeature_loop f False (scenario # rest) s = runFeature_loop f False rest s2"
  using assms by simp

text \<open>
  C10. A failure in a scenario's own steps does not set the flag of the feature. Let the
  scenarios \<open>pre\<close> have been run with the flag still unset. For the next scenario the
  background's steps, if there is a background, are run and pass, and then the scenario's
  own steps are run and return \<open>b\<close>, failed or not. Then for the scenario after it the
  background's steps are run again, from the state the first scenario left, and when they
  pass its own steps are run: the scenario loop over all of them ends with the flag unset
  in the state that these four runs of steps produce, one after the other.
\<close>

theorem scenario_failure_not_kept:
  assumes "runFeature_loop f False pre s = (Return False, s0)"
    and "case Background f of
           None \<Rightarrow> s1 = s0
         | Some bg \<Rightarrow>
             runSteps (Background_Steps bg) (emit (Node (BackgroundNode bg)) s0) = (Return False, s1)"
    and "runSteps (Scenario_Steps sc) (emit (Node (ScenarioNode sc)) s1) = (Return b, s2)"
    and "case Background f of
           None \<Rightarrow> s3 = s2
         | Some bg \<Rightarrow>
             runSteps (Background_Steps bg) (emit (Node (BackgroundNode bg)) s2) = (Return False, s3)"
    and "runSteps (Scenario_Steps sc') (emit (Node (ScenarioNode sc')) s3) = (Return b', s4)"
  shows "runFeature_loop f False (pre @ [sc, sc']) s = (Return False, s4)"
proof -
  have "runFeature_loop f False (pre @ [sc, sc']) s = runFeature_loop f False [sc, sc'] s0"
    using assms(1) by (simp add: runFeature_loop_append)
  also have "\<dots> = runFeature_loop f False [sc'] s2"
    using runBackground_unset [OF assms(2)] assms(3) by (rule runFeature_loop_scenario_unset)
  also have "\<dots> = runFeature_loop f False [] s4"
    using runBackground_unset [OF assms(4)] assms(5) by (rule runFeature_loop_scenario_unset)
  finally show ?thesis by simp
qed

theorem scenario_failure_not_kept_witness:
  "runFeature_loop repeat_feature False (Scenarios repeat_feature) example_suite
   = (Return False, example_suite\<lparr>
        fmt := [Node (BackgroundNode example_background), Passed (step_of ''one'') 0,
                Node (ScenarioNode scenario_a), Failed (step_of ''two'') 1 (ErrorValue ''error''),
                Node (BackgroundNode example_background), Passed (step_of ''one'') 0,
                Node (ScenarioNode scenario_b), Pending (step_of ''three''),
                Node (BackgroundNode example_background), Passed (step_of ''one'') 0,
                Node (ScenarioNode scenario_a), Failed (step_of ''two'') 1 (ErrorValue ''error'')],
        calls := [(0, []), (1, []), (0, []), (0, []), (1, [])]\<rparr>)
   \<and> runFeature_loop plain_feature False (Scenarios plain_feature) example_suite
   = (Return False, example_suite\<lparr>
        fmt := [Node (ScenarioNode scenario_a), Failed (step_of ''two'') 1 (ErrorValue ''error''),
                Node (ScenarioNode scenario_b), Pending (step_of ''three'')],
        calls := [(1, [])]\<rparr>)"
proof -
  let ?s0 = "example_suite\<lparr>
        fmt := [Node (BackgroundNode example_background), Passed (step_of ''one'') 0,
                Node (ScenarioNode scenario_a), Failed (step_of ''two'') 1 (ErrorValue ''error'')],
        calls := [(0, []), (1, [])]\<rparr>"
  let ?s1 = "example_suite\<lparr>
        fmt := [Node (BackgroundNode example_background), Passed (step_of ''one'') 0,
                Node (ScenarioNode scenario_a), Failed (step_of ''two'') 1 (ErrorValue ''error''),
                Node (BackgroundNode example_background), Passed (step_of ''one'') 0],
        calls := [(0, []), (1, []), (0, [])]\<rparr>"
  let ?s2 = "example_suite\<lparr>
        fmt := [Node (BackgroundNode example_background), Passed (step_of ''one'') 0,
                Node (ScenarioNode scenario_a), Failed (step_of ''two'') 1 (ErrorValue ''error''),
                Node (BackgroundNode example_background), Passed (step_of ''one'') 0,
                Node (ScenarioNode scenario_b), Pending (step_of ''three'')],
        calls := [(0, []), (1, []), (0, [])]\<rparr>"
  let ?s3 = "example_suite\<lparr>
        fmt := [Node (BackgroundNode example_background), Passed (step_of ''one'') 0,
                Node (ScenarioNode scenario_a), Failed (step_of ''two'') 1 (ErrorValue ''error''),
                Node (BackgroundNode example_background), Passed (step_of ''one'') 0,
                Node (ScenarioNode scenario_b), Pending (step_of ''three''),
                Node (BackgroundNode example_background), Passed (step_of ''one'') 0],
        calls := [(0, []), (1, []), (0, []), (0, [])]\<rparr>"
  let ?s4 = "example_suite\<lparr>
        fmt := [Node (BackgroundNode example_background), Passed (step_of ''one'') 0,
                Node (ScenarioNode scenario_a), Failed (step_of ''two'') 1 (ErrorValue ''error''),
                Node (BackgroundNode example_background), Passed (step_of ''one'') 0,
                Node (ScenarioNode scenario_b), Pending (step_of ''three''),
                Node (BackgroundNode example_background), Passed (step_of ''one'') 0,
                Node (ScenarioNode scenario_a), Failed (step_of ''two'') 1 (ErrorValue ''error'')],
        calls := [(0, []), (1, []), (0, []), (0, []), (1, [])]\<rparr>"
  have a0: "runFeature_loop repeat_feature False [scenario_a] example_suite = (Return False, ?s0)"
    by (simp add: repeat_feature_def feature_defs example_defs)
  have a1: "case Background repeat_feature of
              None \<Rightarrow> ?s1 = ?s0
            | Some bg \<Rightarrow> runSteps (Background_Steps bg) (emit (Node (BackgroundNode bg)) ?s0)
                = (Return False, ?s1)"
    by (simp add: repeat_feature_def feature_defs example_defs)
  have a2: "runSteps (Scenario_Steps scenario_b) (emit (Node (ScenarioNode scenario_b)) ?s1)
      = (Return True, ?s2)"
    by (simp add: feature_defs example_defs)
  have a3: "case Background repeat_feature of
              None \<Rightarrow> ?s3 = ?s2
            | Some bg \<Rightarrow> runSteps (Background_Steps bg) (emit (Node (BackgroundNode bg)) ?s2)
                = (Return False, ?s3)"
    by (simp add: repeat_feature_def feature_defs example_defs)
  have a4: "runSteps (Scenario_Steps scenario_a) (emit (Node (ScenarioNode scenario_a)) ?s3)
      = (Return True, ?s4)"
    by (simp add: feature_defs example_defs)
  let ?p2 = "example_suite\<lparr>
        fmt := [Node (ScenarioNode scenario_a), Failed (step_of ''two'') 1 (ErrorValue ''error'')],
        calls := [(1, [])]\<rparr>"
  let ?p4 = "example_suite\<lparr>
        fmt := [Node (ScenarioNode scenario_a), Failed (step_of ''two'') 1 (ErrorValue ''error''),
                Node (ScenarioNode scenario_b), Pending (step_of ''three'')],
        calls := [(1, [])]\<rparr>"
  have b0: "runFeature_loop plain_feature False [] example_suite = (Return False, example_suite)"
    by simp
  have b1: "case Background plain_feature of
              None \<Rightarrow> example_suite = example_suite
            | Some bg \<Rightarrow> runSteps (Background_Steps bg) (emit (Node (BackgroundNode bg)) example_suite)
                = (Return False, example_suite)"
    by (simp add: plain_feature_def)
  have b2: "runSteps (Scenario_Steps scenario_a) (emit (Node (ScenarioNode scenario_a)) example_suite)
      = (Return True, ?p2)"
    by (simp add: feature_defs example_defs)
  have b3: "case Background plain_feature of
              None \<Rightarrow> ?p2 = ?p2
            | Some bg \<Rightarrow> runSteps (Background_Steps bg) (emit (Node (BackgroundNode bg)) ?p2)
                = (Return False, ?p2)"
    by (simp add: plain_feature_def)
  have b4: "runSteps (Scenario_Steps scenario_b) (emit (Node (ScenarioNode scenario_b)) ?p2)
      = (Return True, ?p4)"
    by (simp add: feature_defs example_defs)
  from scenario_failure_not_kept [OF a0 a1 a2 a3 a4] scenario_failure_not_kept [OF b0 b1 b2 b3 b4]
  show ?thesis by (simp add: repeat_feature_def plain_feature_def)
qed

section \<open>How often a step is reported\<close>

text \<open>
  C7 at a failing input. In the example feature the background has the one step "one"
  and there are two scenarios. The background is run, and its node and its step reported,
  before each of them: the formatter receives \<^verbatim>\<open>Passed\<close> for the step "one" twice in
  the one run of the feature. The source marks the place:
  \<^verbatim>\<open>// @TODO: do not print more than once\<close>.
\<close>

theorem background_step_reported_twice:
  "fmt (snd (runFeature example_feature example_suite))
     = [Node (FeatureNode example_feature),
        Node (BackgroundNode example_background), Passed (step_of ''one'') 0,
        Node (ScenarioNode scenario_a), Failed (step_of ''two'') 1 (ErrorValue ''error''),
        Node (BackgroundNode example_background), Passed (step_of ''one'') 0,
        Node (ScenarioNode scenario_b), Pending (step_of ''three'')]
   \<and> length (filter (\<lambda>ev. ev = Passed (step_of ''one'') 0)
         (fmt (snd (runFeature example_feature example_suite)))) = 2"
proof -
  have e: "fmt (snd (runFeature example_feature example_suite))
     = [Node (FeatureNode example_feature),
        Node (BackgroundNode example_background), Passed (step_of ''one'') 0,
        Node (ScenarioNode scenario_a), Failed (step_of ''two'') 1 (ErrorValue ''error''),
        Node (BackgroundNode example_background), Passed (step_of ''one'') 0,
        Node (ScenarioNode scenario_b), Pending (step_of ''three'')]"
    by (simp add: feature_defs example_defs)
  show ?thesis unfolding e by (simp add: step_of_def)
qed

section \<open>The strict flag\<close>

lemma run_succeeded_tests:
  "run_succeeded \<lparr>passed_count = 1, failed_count = 0, pending_count = 1, undefined_count = 0,
      skipped_count = 0\<rparr> False
   \<and> \<not> run_succeeded \<lparr>passed_count = 1, failed_count = 0, pending_count = 1,
      undefined_count = 0, skipped_count = 0\<rparr> True
   \<and> \<not> run_succeeded \<lparr>passed_count = 1, failed_count = 1, pending_count = 0,
      undefined_count = 0, skipped_count = 0\<rparr> strict"
  by (simp add: run_succeeded_def)

text \<open>
  C8. For every vector of final counts and every strict flag the run succeeds exactly
  when no step failed and, in strict mode, no step is pending or undefined. When no step
  failed, the run succeeds without the strict flag and fails with it exactly when the
  pending or the undefined count is not zero.
\<close>

theorem strict_mode_decision:
  "(run_succeeded c strict \<longleftrightarrow>
      failed_count c = 0 \<and> (strict \<longrightarrow> pending_count c = 0 \<and> undefined_count c = 0))
   \<and> (failed_count c = 0 \<longrightarrow>
        (run_succeeded c False \<and> \<not> run_succeeded c True
           \<longleftrightarrow> pending_count c \<noteq> 0 \<or> undefined_count c \<noteq> 0))"
  by (auto simp: run_succeeded_def)

theorem strict_mode_decision_witness:
  "run_succeeded \<lparr>passed_count = 1, failed_count = 0, pending_count = 0, undefined_count = 1,
      skipped_count = 0\<rparr> False
   \<and> \<not> run_succeeded \<lparr>passed_count = 1, failed_count = 0, pending_count = 0, undefined_count = 1,
      skipped_count = 0\<rparr> True"
proof -
  let ?c = "\<lparr>passed_count = 1, failed_count = 0, pending_count = 0, undefined_count = 1,
      skipped_count = 0\<rparr>"
  have f: "failed_count ?c = 0" by simp
  have u: "pending_count ?c \<noteq> 0 \<or> undefined_count ?c \<noteq> 0" by simp
  from strict_mode_decision [of ?c True] f u show ?thesis by blast
qed

end
